theory Spec2Isabelle
  imports Main
begin

section \<open>JavaScript values\<close>

text \<open>
  A JavaScript value that may be \<open>undefined\<close>. Reading an array element beyond the
  array's length yields \<open>undefined\<close> instead of raising; so does reading a missing
  property. Numbers are kept abstract (type parameter \<open>'n\<close>): the group only stores
  and copies them.
\<close>

datatype 'a js = Undefined | Defined 'a

text \<open>\<open>xs[i]\<close> on a JavaScript array.\<close>

definition js_nth :: "'a js list \<Rightarrow> nat \<Rightarrow> 'a js" where
  "js_nth xs i = (if i < length xs then xs ! i else Undefined)"

text \<open>
  The group raises nowhere; the result type of \<open>getPanZoomStack\<close> still has an error
  side, so that "signals an error" and "returns \<open>undefined\<close>" are different values.
\<close>

datatype error = RangeError

section \<open>PlotPanZoomStack (the leaf stack)\<close>

text \<open>
  A pan-zoom state is the object \<open>{ origin, dimensions }\<close>, both arrays of numbers
  (index 0 the domain axis, index 1 the range axis).
\<close>

record 'n PanZoomState =
  origin :: "'n js list"
  dimensions :: "'n js list"

text \<open>
  A stack is the sequence of its states, index 0 the base, the last element the top.
\<close>

type_synonym 'n stack = "'n PanZoomState list"

text \<open>
  Modelled from the spec: the module \<open>./PlotPanZoomStack\<close>, required by the group, is
  not among the sources. The constructor and the seven operations below follow the
  specification's section 4.1: a stack is created holding the single base state it is
  given; \<open>getOrigin\<close>, \<open>getDimensions\<close> read the top state; \<open>getDepth\<close> is the
  stack length; \<open>pushPanZoom\<close> appends a new top; \<open>popPanZoom\<close> removes the top
  unless the depth is 1; \<open>setBasePanZoom\<close> replaces the state at index 0 only;
  \<open>clearPanZoom\<close> truncates the stack to the base state. The specification keeps a
  stack non-empty at all times, and the reads of the top state are used on non-empty
  stacks only.
\<close>

definition PlotPanZoomStack :: "'n js list \<Rightarrow> 'n js list \<Rightarrow> 'n stack" where
  "PlotPanZoomStack org dims = [\<lparr>origin = org, dimensions = dims\<rparr>]"

definition stack_getDepth :: "'n stack \<Rightarrow> nat" where
  "stack_getDepth s = length s"

definition stack_getPanZoom :: "'n stack \<Rightarrow> 'n PanZoomState" where
  "stack_getPanZoom s = last s"

definition stack_getOrigin :: "'n stack \<Rightarrow> 'n js list" where
  "stack_getOrigin s = origin (stack_getPanZoom s)"

definition stack_getDimensions :: "'n stack \<Rightarrow> 'n js list" where
  "stack_getDimensions s = dimensions (stack_getPanZoom s)"

definition stack_pushPanZoom :: "'n js list \<Rightarrow> 'n js list \<Rightarrow> 'n stack \<Rightarrow> 'n stack" where
  "stack_pushPanZoom org dims s = s @ [\<lparr>origin = org, dimensions = dims\<rparr>]"

definition stack_popPanZoom :: "'n stack \<Rightarrow> 'n stack" where
  "stack_popPanZoom s = (if stack_getDepth s = 1 then s else butlast s)"

definition stack_setBasePanZoom :: "'n js list \<Rightarrow> 'n js list \<Rightarrow> 'n stack \<Rightarrow> 'n stack" where
  "stack_setBasePanZoom org dims s = s[0 := \<lparr>origin = org, dimensions = dims\<rparr>]"

definition stack_clearPanZoom :: "'n stack \<Rightarrow> 'n stack" where
  "stack_clearPanZoom s = take 1 s"

text \<open>
  The specification's description of clearing, "\<open>popPanZoom\<close> repeated until
  depth == 1", as a loop of its own. The loop need not end on every list (it does not on
  the empty one), so not returning is the value \<open>None\<close>.
\<close>

partial_function (option) pop_until_base :: "'n stack \<Rightarrow> 'n stack option" where
  "pop_until_base s =
     (if stack_getDepth s = 1 then Some s else pop_until_base (stack_popPanZoom s))"

section \<open>PlotPanZoomStackGroup\<close>

text \<open>
  A decorated stack is \<open>Object.create(stack)\<close> with the four mutating methods
  overridden: its reads go to the stack it was created from, its \<open>pushPanZoom\<close> is
  bound to the index of that stack. It is determined by that index.
\<close>

datatype wrapper = Decorated nat

fun index_of :: "wrapper \<Rightarrow> nat" where
  "index_of (Decorated index) = index"

text \<open>The closure variables of the constructor: \<open>stacks\<close> and \<open>decoratedStacks\<close>.\<close>

record 'n group =
  stacks :: "'n stack list"
  decoratedStacks :: "wrapper list"

text \<open>
  \<open>stacks.forEach(function (stack, i) { ... })\<close>: stack \<open>index\<close> gets the caller's
  arrays themselves, every other stack a new two-element array of the caller's domain
  entry and its own current range entry.
\<close>

definition pushPanZoom :: "'n js list \<Rightarrow> 'n js list \<Rightarrow> nat \<Rightarrow> 'n group \<Rightarrow> 'n group" where
  "pushPanZoom org dims index g =
     g\<lparr>stacks :=
         map (\<lambda>(i, stack).
                if i = index then stack_pushPanZoom org dims stack
                else stack_pushPanZoom
                       [js_nth org 0, js_nth (stack_getOrigin stack) 1]
                       [js_nth dims 0, js_nth (stack_getDimensions stack) 1]
                       stack)
             (zip [0..<length (stacks g)] (stacks g))\<rparr>"

definition popPanZoom :: "'n group \<Rightarrow> 'n group" where
  "popPanZoom g = g\<lparr>stacks := map stack_popPanZoom (stacks g)\<rparr>"

definition setBasePanZoom :: "'n js list \<Rightarrow> 'n js list \<Rightarrow> 'n group \<Rightarrow> 'n group" where
  "setBasePanZoom org dims g = g\<lparr>stacks := map (stack_setBasePanZoom org dims) (stacks g)\<rparr>"

definition clearPanZoom :: "'n group \<Rightarrow> 'n group" where
  "clearPanZoom g = g\<lparr>stacks := map stack_clearPanZoom (stacks g)\<rparr>"

definition decorateStack :: "'n stack \<Rightarrow> nat \<Rightarrow> wrapper" where
  "decorateStack stack index = Decorated index"

text \<open>\<open>while (stacks.length < count) { stacks.push(new PlotPanZoomStack([], [])); }\<close>\<close>

function create_stacks :: "int \<Rightarrow> 'n stack list \<Rightarrow> 'n stack list" where
  "create_stacks count ss =
     (if int (length ss) < count then create_stacks count (ss @ [PlotPanZoomStack [] []])
      else ss)"
  by pat_completeness auto
termination
  by (relation "measure (\<lambda>(count, ss). nat (count - int (length ss)))") auto

definition PlotPanZoomStackGroup :: "int \<Rightarrow> 'n group" where
  "PlotPanZoomStackGroup count =
     (let ss = create_stacks count []
      in \<lparr>stacks = ss,
          decoratedStacks = map (\<lambda>(stack, i). decorateStack stack i) (zip ss [0..<length ss])\<rparr>)"

definition getDepth :: "'n group \<Rightarrow> nat" where
  "getDepth g = (if length (stacks g) > 0 then stack_getDepth (stacks g ! 0) else 0)"

text \<open>
  \<open>decoratedStacks[index]\<close>: a read of a JavaScript array, \<open>undefined\<close> outside
  \<open>0 \<le> index < decoratedStacks.length\<close>.
\<close>

definition getPanZoomStack :: "'n group \<Rightarrow> int \<Rightarrow> error + wrapper js" where
  "getPanZoomStack g index =
     Inr (if 0 \<le> index \<and> index < int (length (decoratedStacks g))
          then Defined (decoratedStacks g ! nat index) else Undefined)"

text \<open>The methods of a decorated stack.\<close>

definition wrapper_pushPanZoom :: "wrapper \<Rightarrow> 'n js list \<Rightarrow> 'n js list \<Rightarrow> 'n group \<Rightarrow> 'n group" where
  "wrapper_pushPanZoom w org dims g = pushPanZoom org dims (index_of w) g"

definition wrapper_getOrigin :: "wrapper \<Rightarrow> 'n group \<Rightarrow> 'n js list" where
  "wrapper_getOrigin w g = stack_getOrigin (stacks g ! index_of w)"

definition wrapper_getDimensions :: "wrapper \<Rightarrow> 'n group \<Rightarrow> 'n js list" where
  "wrapper_getDimensions w g = stack_getDimensions (stacks g ! index_of w)"

definition wrapper_getDepth :: "wrapper \<Rightarrow> 'n group \<Rightarrow> nat" where
  "wrapper_getDepth w g = stack_getDepth (stacks g ! index_of w)"

subsection \<open>Sequences of group operations\<close>

text \<open>
  The calls a client can make on a group through its decorated stacks and its own
  interface: a push through the decorated stack of some index, and the three group-wide
  operations.
\<close>

datatype 'n group_op =
    Push nat "'n js list" "'n js list"
  | Pop
  | SetBase "'n js list" "'n js list"
  | Clear

fun apply_op :: "'n group \<Rightarrow> 'n group_op \<Rightarrow> 'n group" where
  "apply_op g (Push index org dims) = wrapper_pushPanZoom (Decorated index) org dims g"
| "apply_op g Pop = popPanZoom g"
| "apply_op g (SetBase org dims) = setBasePanZoom org dims g"
| "apply_op g Clear = clearPanZoom g"

definition group_run :: "'n group_op list \<Rightarrow> 'n group \<Rightarrow> 'n group" where
  "group_run ops g = foldl apply_op g ops"

text \<open>
  "Repeating \<open>popPanZoom\<close> until depth == 1" on the group, as a loop of its own, with
  the group's \<open>getDepth\<close> as the test. On a group without stacks the depth is 0 for
  ever and the loop does not end.
\<close>

partial_function (option) group_pop_until_base :: "'n group \<Rightarrow> 'n group option" where
  "group_pop_until_base g =
     (if getDepth g = 1 then Some g else group_pop_until_base (popPanZoom g))"

subsection \<open>The invariant of a group\<close>

text \<open>\<open>synced d g\<close>: every stack of the group has depth \<open>d\<close>, and \<open>d\<close> is at least 1.\<close>

definition synced :: "nat \<Rightarrow> 'n group \<Rightarrow> bool" where
  "synced d g = (1 \<le> d \<and> (\<forall>s\<in>set (stacks g). stack_getDepth s = d))"

section \<open>Basic facts\<close>

declare create_stacks.simps [simp del]

lemma create_stacks_eq:
  "create_stacks count ss = ss @ replicate (nat (count - int (length ss))) (PlotPanZoomStack [] [])"
proof (induction count ss rule: create_stacks.induct)
  case (1 count ss)
  show ?case
  proof (cases "int (length ss) < count")
    case True
    then have n: "nat (count - int (length ss)) = Suc (nat (count - int (length ss) - 1))"
      by simp
    have "create_stacks count ss = create_stacks count (ss @ [PlotPanZoomStack [] []])"
      using True by (subst create_stacks.simps) simp
    also have "\<dots> = (ss @ [PlotPanZoomStack [] []])
        @ replicate (nat (count - int (length ss) - 1)) (PlotPanZoomStack [] [])"
      using "1" True by simp
    finally show ?thesis
      by (simp only: n replicate_Suc append_Cons append_Nil append_assoc)
  next
    case False
    then show ?thesis
      by (subst create_stacks.simps) simp
  qed
qed

lemma stacks_PlotPanZoomStackGroup:
  "stacks (PlotPanZoomStackGroup count) = replicate (nat count) (PlotPanZoomStack [] [])"
  by (simp add: PlotPanZoomStackGroup_def Let_def create_stacks_eq)

lemma decorate_all:
  "map (\<lambda>(stack, i). decorateStack stack i) (zip ss [0..<length ss]) = map Decorated [0..<length ss]"
  by (rule nth_equalityI) (simp_all add: decorateStack_def)

lemma decoratedStacks_PlotPanZoomStackGroup:
  "decoratedStacks (PlotPanZoomStackGroup count) = map Decorated [0..<nat count]"
  by (simp add: PlotPanZoomStackGroup_def Let_def decorate_all create_stacks_eq)

subsection \<open>What each group operation does to the closure variables\<close>

lemma length_stacks_pushPanZoom:
  "length (stacks (pushPanZoom org dims index g)) = length (stacks g)"
  by (simp add: pushPanZoom_def)

lemma nth_stacks_pushPanZoom:
  assumes "j < length (stacks g)"
  shows "stacks (pushPanZoom org dims index g) ! j =
     (if j = index then stack_pushPanZoom org dims (stacks g ! j)
      else stack_pushPanZoom
             [js_nth org 0, js_nth (stack_getOrigin (stacks g ! j)) 1]
             [js_nth dims 0, js_nth (stack_getDimensions (stacks g ! j)) 1]
             (stacks g ! j))"
  using assms by (simp add: pushPanZoom_def)

lemma decoratedStacks_apply_op:
  "decoratedStacks (apply_op g x) = decoratedStacks g"
  by (cases x)
    (simp_all add: wrapper_pushPanZoom_def pushPanZoom_def popPanZoom_def
      setBasePanZoom_def clearPanZoom_def)

lemma length_stacks_apply_op:
  "length (stacks (apply_op g x)) = length (stacks g)"
  by (cases x)
    (simp_all add: wrapper_pushPanZoom_def pushPanZoom_def popPanZoom_def
      setBasePanZoom_def clearPanZoom_def)

lemma group_run_Nil: "group_run [] g = g"
  by (simp add: group_run_def)

lemma group_run_Cons: "group_run (x # ops) g = group_run ops (apply_op g x)"
  by (simp add: group_run_def)

lemma decoratedStacks_group_run:
  "decoratedStacks (group_run ops g) = decoratedStacks g"
  by (induction ops arbitrary: g)
    (simp_all add: group_run_Nil group_run_Cons decoratedStacks_apply_op)

lemma length_stacks_group_run:
  "length (stacks (group_run ops g)) = length (stacks g)"
  by (induction ops arbitrary: g)
    (simp_all add: group_run_Nil group_run_Cons length_stacks_apply_op)

lemma no_stacks_unchanged:
  assumes "stacks g = []"
  shows "popPanZoom g = g" and "setBasePanZoom org dims g = g" and "clearPanZoom g = g"
    and "pushPanZoom org dims index g = g"
  using assms
  by (simp_all add: popPanZoom_def setBasePanZoom_def clearPanZoom_def pushPanZoom_def)

subsection \<open>Depth of a single stack\<close>

lemma depth_PlotPanZoomStack: "stack_getDepth (PlotPanZoomStack org dims) = 1"
  by (simp add: stack_getDepth_def PlotPanZoomStack_def)

lemma depth_push: "stack_getDepth (stack_pushPanZoom org dims s) = Suc (stack_getDepth s)"
  by (simp add: stack_getDepth_def stack_pushPanZoom_def)

lemma depth_pop:
  "stack_getDepth (stack_popPanZoom s) =
     (if stack_getDepth s \<le> 1 then stack_getDepth s else stack_getDepth s - 1)"
  by (cases s) (auto simp: stack_getDepth_def stack_popPanZoom_def)

lemma depth_setBase: "stack_getDepth (stack_setBasePanZoom org dims s) = stack_getDepth s"
  by (simp add: stack_getDepth_def stack_setBasePanZoom_def)

lemma depth_clear: "1 \<le> stack_getDepth s \<Longrightarrow> stack_getDepth (stack_clearPanZoom s) = 1"
  by (cases s) (simp_all add: stack_getDepth_def stack_clearPanZoom_def)

lemma pop_at_base: "stack_getDepth s = 1 \<Longrightarrow> stack_popPanZoom s = s"
  by (simp add: stack_popPanZoom_def)

lemma pop_push: "1 \<le> stack_getDepth s \<Longrightarrow> stack_popPanZoom (stack_pushPanZoom org dims s) = s"
  by (cases s) (simp_all add: stack_popPanZoom_def stack_pushPanZoom_def stack_getDepth_def)

lemma depth_pops_floor:
  "1 \<le> stack_getDepth s \<Longrightarrow> 1 \<le> stack_getDepth ((stack_popPanZoom ^^ n) s)"
proof (induction n)
  case 0
  then show ?case by simp
next
  case (Suc n)
  then have "1 \<le> stack_getDepth ((stack_popPanZoom ^^ n) s)" by simp
  then show ?case by (auto simp: depth_pop)
qed

subsection \<open>The stacks of a group stay at one common depth\<close>

lemma synced_PlotPanZoomStackGroup: "synced 1 (PlotPanZoomStackGroup count)"
  by (simp add: synced_def stacks_PlotPanZoomStackGroup depth_PlotPanZoomStack)

lemma synced_pushPanZoom:
  assumes "synced d g"
  shows "synced (Suc d) (pushPanZoom org dims index g)"
proof -
  have "stack_getDepth t = Suc d" if "t \<in> set (stacks (pushPanZoom org dims index g))" for t
  proof -
    from that obtain j where j: "j < length (stacks g)"
      and t: "t = stacks (pushPanZoom org dims index g) ! j"
      by (metis in_set_conv_nth length_stacks_pushPanZoom)
    from j assms have "stack_getDepth (stacks g ! j) = d"
      by (simp add: synced_def)
    with j t show ?thesis
      by (auto simp: nth_stacks_pushPanZoom depth_push)
  qed
  then show ?thesis by (simp add: synced_def)
qed

lemma synced_popPanZoom:
  assumes "synced d g"
  shows "synced (if d = 1 then 1 else d - 1) (popPanZoom g)"
  using assms by (auto simp: synced_def popPanZoom_def depth_pop)

lemma synced_setBasePanZoom:
  assumes "synced d g"
  shows "synced d (setBasePanZoom org dims g)"
  using assms by (simp add: synced_def setBasePanZoom_def depth_setBase)

lemma synced_clearPanZoom:
  assumes "synced d g"
  shows "synced 1 (clearPanZoom g)"
  using assms by (simp add: synced_def clearPanZoom_def depth_clear)

lemma synced_apply_op:
  assumes "synced d g"
  shows "\<exists>d'. synced d' (apply_op g x)"
proof (cases x)
  case (Push index org dims)
  with synced_pushPanZoom [OF assms] show ?thesis
    by (auto simp: wrapper_pushPanZoom_def)
next
  case Pop
  with synced_popPanZoom [OF assms] show ?thesis by auto
next
  case (SetBase org dims)
  with synced_setBasePanZoom [OF assms] show ?thesis by auto
next
  case Clear
  with synced_clearPanZoom [OF assms] show ?thesis by auto
qed

lemma synced_group_run:
  "synced d g \<Longrightarrow> \<exists>d'. synced d' (group_run ops g)"
proof (induction ops arbitrary: d g)
  case Nil
  then show ?case by (auto simp: group_run_Nil)
next
  case (Cons x ops)
  from synced_apply_op [OF Cons.prems] obtain d1 where "synced d1 (apply_op g x)" ..
  from Cons.IH [OF this] show ?case by (simp add: group_run_Cons)
qed

lemma synced_reachable:
  "\<exists>d. synced d (group_run ops (PlotPanZoomStackGroup count))"
  using synced_group_run [OF synced_PlotPanZoomStackGroup] .

lemma floor_reachable:
  assumes "g = group_run ops (PlotPanZoomStackGroup count)" and "j < length (stacks g)"
  shows "1 \<le> stack_getDepth (stacks g ! j)"
proof -
  obtain d where "synced d g"
    using synced_reachable assms(1) by blast
  with assms(2) show ?thesis
    by (simp add: synced_def)
qed

lemma length_stacks_reachable:
  "length (stacks (group_run ops (PlotPanZoomStackGroup count))) = nat count"
  by (simp add: length_stacks_group_run stacks_PlotPanZoomStackGroup)

lemma top_push:
  "stack_getPanZoom (stack_pushPanZoom org dims s) = \<lparr>origin = org, dimensions = dims\<rparr>"
  "stack_getOrigin (stack_pushPanZoom org dims s) = org"
  "stack_getDimensions (stack_pushPanZoom org dims s) = dims"
  "butlast (stack_pushPanZoom org dims s) = s"
  by (simp_all add: stack_getPanZoom_def stack_getOrigin_def stack_getDimensions_def
      stack_pushPanZoom_def)

lemma js_nth_pair: "js_nth [a, b] 0 = a" "js_nth [a, b] 1 = b" "js_nth [a, b] (Suc 0) = b"
  by (simp_all add: js_nth_def)

lemma setBase_entries:
  assumes "1 \<le> stack_getDepth s"
  shows "stack_setBasePanZoom org dims s ! 0 = \<lparr>origin = org, dimensions = dims\<rparr>"
    and "0 < k \<Longrightarrow> stack_setBasePanZoom org dims s ! k = s ! k"
  using assms by (cases s; simp add: stack_setBasePanZoom_def stack_getDepth_def)+

lemma clear_at_base: "stack_getDepth s = 1 \<Longrightarrow> stack_clearPanZoom s = s"
  by (simp add: stack_clearPanZoom_def stack_getDepth_def)

lemma clear_pop: "stack_clearPanZoom (stack_popPanZoom s) = stack_clearPanZoom s"
proof (cases "length s \<le> 1")
  case True
  then show ?thesis
    by (cases s) (simp_all add: stack_clearPanZoom_def stack_popPanZoom_def stack_getDepth_def)
next
  case False
  then have "min 1 (length s - 1) = 1" by simp
  with False show ?thesis
    by (simp add: stack_clearPanZoom_def stack_popPanZoom_def stack_getDepth_def
        butlast_conv_take)
qed

lemma clear_clear: "stack_clearPanZoom (stack_clearPanZoom s) = stack_clearPanZoom s"
  by (simp add: stack_clearPanZoom_def)

lemma clear_base_only:
  "1 \<le> stack_getDepth s \<Longrightarrow> stack_clearPanZoom s = [s ! 0]"
  by (cases s) (simp_all add: stack_clearPanZoom_def stack_getDepth_def)

lemma pop_until_base_clear:
  "1 \<le> stack_getDepth s \<Longrightarrow> pop_until_base s = Some (stack_clearPanZoom s)"
proof (induction s rule: rev_induct)
  case Nil
  then show ?case by (simp add: stack_getDepth_def)
next
  case (snoc x xs)
  show ?case
  proof (cases "xs = []")
    case True
    then have "stack_getDepth (xs @ [x]) = 1"
      by (simp add: stack_getDepth_def)
    then show ?thesis
      by (subst pop_until_base.simps) (simp add: clear_at_base)
  next
    case False
    then have d: "stack_getDepth (xs @ [x]) \<noteq> 1" and f: "1 \<le> stack_getDepth xs"
      by (simp_all add: stack_getDepth_def Suc_le_eq)
    from d have p: "stack_popPanZoom (xs @ [x]) = xs"
      by (simp add: stack_popPanZoom_def)
    have "pop_until_base (xs @ [x]) = pop_until_base xs"
      using d p by (subst pop_until_base.simps) simp
    also have "\<dots> = Some (stack_clearPanZoom xs)"
      using snoc.IH [OF f] .
    also have "stack_clearPanZoom xs = stack_clearPanZoom (xs @ [x])"
      using clear_pop [of "xs @ [x]"] p by simp
    finally show ?thesis .
  qed
qed

lemma getDepth_synced: "synced d g \<Longrightarrow> stacks g \<noteq> [] \<Longrightarrow> getDepth g = d"
  by (simp add: synced_def getDepth_def)

lemma clearPanZoom_popPanZoom: "clearPanZoom (popPanZoom g) = clearPanZoom g"
  by (simp add: clearPanZoom_def popPanZoom_def clear_pop)

lemma group_pop_until_base_clear:
  "synced d g \<Longrightarrow> stacks g \<noteq> [] \<Longrightarrow> group_pop_until_base g = Some (clearPanZoom g)"
proof (induction d arbitrary: g)
  case 0
  then show ?case by (simp add: synced_def)
next
  case (Suc d)
  show ?case
  proof (cases "d = 0")
    case True
    with Suc.prems have one: "getDepth g = 1" and all: "\<forall>s\<in>set (stacks g). stack_getDepth s = 1"
      by (simp_all add: getDepth_synced synced_def)
    from all have "map stack_clearPanZoom (stacks g) = stacks g"
      by (simp add: map_idI clear_at_base)
    then have "clearPanZoom g = g"
      by (simp add: clearPanZoom_def)
    with one show ?thesis
      by (subst group_pop_until_base.simps) simp
  next
    case False
    from Suc.prems have dg: "getDepth g = Suc d"
      by (simp add: getDepth_synced)
    from synced_popPanZoom [OF Suc.prems(1)] False have s: "synced d (popPanZoom g)"
      by simp
    from Suc.prems(2) have n: "stacks (popPanZoom g) \<noteq> []"
      by (simp add: popPanZoom_def)
    have "group_pop_until_base g = group_pop_until_base (popPanZoom g)"
      using dg False by (subst group_pop_until_base.simps) simp
    also have "\<dots> = Some (clearPanZoom (popPanZoom g))"
      using Suc.IH [OF s n] .
    finally show ?thesis
      by (simp add: clearPanZoom_popPanZoom)
  qed
qed

lemma getPanZoomStack_reachable:
  assumes "i < nat count"
  shows "getPanZoomStack (group_run ops (PlotPanZoomStackGroup count)) (int i)
    = Inr (Defined (Decorated i))"
proof -
  from assms have "int i < count" and "0 \<le> count"
    by linarith+
  with assms show ?thesis
    by (simp add: getPanZoomStack_def decoratedStacks_group_run
        decoratedStacks_PlotPanZoomStackGroup)
qed

subsection \<open>Evaluating the operations on a concrete group\<close>

lemmas group_eval = group_run_def wrapper_pushPanZoom_def pushPanZoom_def popPanZoom_def
  setBasePanZoom_def clearPanZoom_def stacks_PlotPanZoomStackGroup PlotPanZoomStack_def
  stack_pushPanZoom_def stack_popPanZoom_def stack_setBasePanZoom_def stack_clearPanZoom_def
  stack_getDepth_def stack_getOrigin_def stack_getDimensions_def stack_getPanZoom_def
  js_nth_def getDepth_def eval_nat_numeral

section \<open>The group without stacks\<close>

text \<open>
  C10. A group constructed with count 0 has no stacks. On it \<open>popPanZoom()\<close>,
  \<open>setBasePanZoom(origin, dimensions)\<close> and \<open>clearPanZoom()\<close> each return
  (the functions are total and have no error result) and leave the group as it was, and
  \<open>getDepth()\<close> is 0 before and after each of them.
\<close>

theorem empty_group_noop:
  "popPanZoom (PlotPanZoomStackGroup 0) = PlotPanZoomStackGroup 0
   \<and> setBasePanZoom org dims (PlotPanZoomStackGroup 0) = PlotPanZoomStackGroup 0
   \<and> clearPanZoom (PlotPanZoomStackGroup 0) = PlotPanZoomStackGroup 0
   \<and> getDepth (PlotPanZoomStackGroup 0) = 0
   \<and> getDepth (popPanZoom (PlotPanZoomStackGroup 0)) = 0
   \<and> getDepth (setBasePanZoom org dims (PlotPanZoomStackGroup 0)) = 0
   \<and> getDepth (clearPanZoom (PlotPanZoomStackGroup 0)) = 0"
proof -
  have e: "stacks (PlotPanZoomStackGroup 0) = []"
    by (simp add: stacks_PlotPanZoomStackGroup)
  have d: "getDepth (PlotPanZoomStackGroup 0) = 0"
    by (simp add: getDepth_def e)
  show ?thesis
    by (simp add: no_stacks_unchanged [OF e] d)
qed

section \<open>Looking up a decorated stack\<close>

text \<open>
  C4, as the specification states it: \<open>getPanZoomStack\<close> with an index out of range
  signals an out-of-bounds error. It does not: on the group of two stacks, index 2 is
  answered by a normal return of \<open>undefined\<close>; so is index 0 on the group without
  stacks, and a negative index.
\<close>

theorem getPanZoomStack_no_error_counterexample:
  "getPanZoomStack (PlotPanZoomStackGroup 2 :: int group) 2 = Inr Undefined
   \<and> \<not> isl (getPanZoomStack (PlotPanZoomStackGroup 2 :: int group) 2)
   \<and> getPanZoomStack (PlotPanZoomStackGroup 0 :: int group) 0 = Inr Undefined
   \<and> getPanZoomStack (PlotPanZoomStackGroup 2 :: int group) (- 1) = Inr Undefined"
  by (simp add: getPanZoomStack_def decoratedStacks_PlotPanZoomStackGroup)

text \<open>
  C4, amended: at every moment of a group's life (after any sequence of group
  operations), \<open>getPanZoomStack(index)\<close> with an index outside \<open>0 \<le> index < count\<close>
  returns \<open>undefined\<close> and signals no error; it neither clamps the index nor returns
  a default wrapper. With an index in range it returns the decorated stack of that
  index.
\<close>

theorem getPanZoomStack_result:
  "(\<not> (0 \<le> index \<and> index < count) \<longrightarrow>
      getPanZoomStack (group_run ops (PlotPanZoomStackGroup count)) index = Inr Undefined)
   \<and> (0 \<le> index \<and> index < count \<longrightarrow>
      getPanZoomStack (group_run ops (PlotPanZoomStackGroup count)) index
        = Inr (Defined (Decorated (nat index))))"
proof -
  have "0 \<le> index \<and> index < int (nat count) \<longleftrightarrow> 0 \<le> index \<and> index < count"
    by auto
  moreover have "0 \<le> index \<Longrightarrow> index < count \<Longrightarrow> nat index < nat count"
    by simp
  ultimately show ?thesis
    by (simp add: getPanZoomStack_def decoratedStacks_group_run
        decoratedStacks_PlotPanZoomStackGroup)
qed

theorem getPanZoomStack_result_witness:
  "getPanZoomStack (group_run [Push 0 [Defined 5, Defined 10] [Defined 1, Defined 1], Pop]
      (PlotPanZoomStackGroup 3 :: int group)) 7 = Inr Undefined
   \<and> getPanZoomStack (group_run [Push 0 [Defined 5, Defined 10] [Defined 1, Defined 1], Pop]
      (PlotPanZoomStackGroup 3 :: int group)) 2 = Inr (Defined (Decorated 2))"
  using getPanZoomStack_result [of 7 3 "[Push 0 [Defined 5, Defined 10] [Defined 1, Defined 1], Pop]"]
    getPanZoomStack_result [of 2 3 "[Push 0 [Defined 5, Defined 10] [Defined 1, Defined 1], Pop]"]
  by simp

section \<open>The floor of a stack\<close>

text \<open>
  C3. Any number of \<open>popPanZoom\<close> calls on a stack of depth at least 1 (in particular
  on a freshly constructed stack) leaves its depth at least 1; \<open>popPanZoom\<close> at depth
  1 returns the stack with all its entries unchanged; in a group, after any sequence of
  group operations followed by any number of group-wide pops, every stack has depth at
  least 1; and when every stack of a group is at depth 1, the group-wide
  \<open>popPanZoom\<close> leaves the whole group unchanged.
\<close>

theorem popPanZoom_floor:
  "(1 \<le> stack_getDepth s \<longrightarrow> 1 \<le> stack_getDepth ((stack_popPanZoom ^^ n) s))
   \<and> 1 \<le> stack_getDepth ((stack_popPanZoom ^^ n) (PlotPanZoomStack org dims))
   \<and> (stack_getDepth s = 1 \<longrightarrow> stack_popPanZoom s = s)
   \<and> (\<forall>t\<in>set (stacks (group_run (ops @ replicate n Pop) (PlotPanZoomStackGroup count))).
         1 \<le> stack_getDepth t)
   \<and> ((\<forall>t\<in>set (stacks g). stack_getDepth t = 1) \<longrightarrow> popPanZoom g = g)"
proof -
  have a: "1 \<le> stack_getDepth ((stack_popPanZoom ^^ n) (PlotPanZoomStack org dims))"
    by (rule depth_pops_floor) (simp add: depth_PlotPanZoomStack)
  obtain d where "synced d (group_run (ops @ replicate n Pop) (PlotPanZoomStackGroup count))"
    using synced_reachable by blast
  then have b: "\<forall>t\<in>set (stacks (group_run (ops @ replicate n Pop) (PlotPanZoomStackGroup count))).
         1 \<le> stack_getDepth t"
    by (simp add: synced_def)
  have c: "popPanZoom g = g" if "\<forall>t\<in>set (stacks g). stack_getDepth t = 1"
  proof -
    from that have "map stack_popPanZoom (stacks g) = stacks g"
      by (simp add: map_idI pop_at_base)
    then show ?thesis by (simp add: popPanZoom_def)
  qed
  have d: "1 \<le> stack_getDepth s \<longrightarrow> 1 \<le> stack_getDepth ((stack_popPanZoom ^^ n) s)"
    using depth_pops_floor by blast
  have e: "stack_getDepth s = 1 \<longrightarrow> stack_popPanZoom s = s"
    using pop_at_base by blast
  from a b c d e show ?thesis by blast
qed

theorem popPanZoom_floor_witness:
  "1 \<le> stack_getDepth (stack_pushPanZoom [Defined 3, Defined 4] [Defined 1, Defined 1]
          (PlotPanZoomStack [Defined (0::int), Defined 0] [Defined 2, Defined 2]))
   \<and> 1 \<le> stack_getDepth ((stack_popPanZoom ^^ 3)
          (stack_pushPanZoom [Defined 3, Defined 4] [Defined 1, Defined 1]
            (PlotPanZoomStack [Defined (0::int), Defined 0] [Defined 2, Defined 2])))
   \<and> stack_getDepth (PlotPanZoomStack [Defined (0::int), Defined 0] [Defined 2, Defined 2]) = 1
   \<and> stack_popPanZoom (PlotPanZoomStack [Defined (0::int), Defined 0] [Defined 2, Defined 2])
       = PlotPanZoomStack [Defined 0, Defined 0] [Defined 2, Defined 2]
   \<and> 1 \<le> stack_getDepth (stacks (group_run [Pop, Pop, Pop] (PlotPanZoomStackGroup 2 :: int group)) ! 1)
   \<and> stack_getDepth (stacks (PlotPanZoomStackGroup 2 :: int group) ! 0) = 1
   \<and> stack_getDepth (stacks (PlotPanZoomStackGroup 2 :: int group) ! 1) = 1
   \<and> popPanZoom (PlotPanZoomStackGroup 2 :: int group) = PlotPanZoomStackGroup 2"
  using popPanZoom_floor [of
      "stack_pushPanZoom [Defined 3, Defined 4] [Defined 1, Defined 1]
          (PlotPanZoomStack [Defined (0::int), Defined 0] [Defined 2, Defined 2])"
      3 "[Defined 0, Defined 0]" "[Defined 2, Defined 2]" "[]" 2 "PlotPanZoomStackGroup 2"]
    popPanZoom_floor [of "PlotPanZoomStack [Defined (0::int), Defined 0] [Defined 2, Defined 2]"
      0 "[]" "[]" "[]" 0 "PlotPanZoomStackGroup 0 :: int group"]
  by (simp add: group_eval)

section \<open>Equal depth\<close>

text \<open>
  C2. After any sequence of group operations (a push through the decorated stack of any
  index, \<open>popPanZoom\<close>, \<open>setBasePanZoom\<close>, \<open>clearPanZoom\<close>) on a freshly
  constructed group, any two member stacks report the same \<open>getDepth()\<close>; and a
  push through any decorated stack keeps the number of stacks and increases the depth of
  every stack by exactly one. This holds for every group size, in particular for the
  sizes from 2 on.
\<close>

theorem equal_depth:
  "(\<forall>s\<in>set (stacks (group_run ops (PlotPanZoomStackGroup count))).
      \<forall>t\<in>set (stacks (group_run ops (PlotPanZoomStackGroup count))).
        stack_getDepth s = stack_getDepth t)
   \<and> length (stacks (wrapper_pushPanZoom w org dims g)) = length (stacks g)
   \<and> (\<forall>j<length (stacks g).
         stack_getDepth (stacks (wrapper_pushPanZoom w org dims g) ! j)
           = stack_getDepth (stacks g ! j) + 1)"
proof -
  obtain d where "synced d (group_run ops (PlotPanZoomStackGroup count))"
    using synced_reachable by blast
  then have a: "\<forall>s\<in>set (stacks (group_run ops (PlotPanZoomStackGroup count))).
      \<forall>t\<in>set (stacks (group_run ops (PlotPanZoomStackGroup count))).
        stack_getDepth s = stack_getDepth t"
    by (simp add: synced_def)
  have b: "stack_getDepth (stacks (wrapper_pushPanZoom w org dims g) ! j)
           = stack_getDepth (stacks g ! j) + 1" if "j < length (stacks g)" for j
    using that by (simp add: wrapper_pushPanZoom_def nth_stacks_pushPanZoom depth_push)
  have c: "length (stacks (wrapper_pushPanZoom w org dims g)) = length (stacks g)"
    by (simp add: wrapper_pushPanZoom_def length_stacks_pushPanZoom)
  from a b c show ?thesis by blast
qed

theorem equal_depth_witness:
  "stack_getDepth (stacks (group_run
        [Push 1 [Defined 0, Defined 7] [Defined 0, Defined 2], Clear, Push 0 [Defined 5, Defined 10] [Defined 1, Defined 1]]
        (PlotPanZoomStackGroup 3 :: int group)) ! 0) = 2
   \<and> stack_getDepth (stacks (group_run
        [Push 1 [Defined 0, Defined 7] [Defined 0, Defined 2], Clear, Push 0 [Defined 5, Defined 10] [Defined 1, Defined 1]]
        (PlotPanZoomStackGroup 3 :: int group)) ! 2) = 2
   \<and> length (stacks (wrapper_pushPanZoom (Decorated 0) [Defined 5, Defined 10] [Defined 1, Defined 1]
        (PlotPanZoomStackGroup 2 :: int group))) = 2
   \<and> stack_getDepth (stacks (wrapper_pushPanZoom (Decorated 0) [Defined 5, Defined 10] [Defined 1, Defined 1]
        (PlotPanZoomStackGroup 2 :: int group)) ! 1) = 2"
  using equal_depth [of
        "[Push 1 [Defined 0, Defined 7] [Defined 0, Defined 2], Clear, Push 0 [Defined 5, Defined 10] [Defined 1, Defined 1]]"
        3 "Decorated 0" "[Defined 5, Defined 10]" "[Defined 1, Defined 1]" "PlotPanZoomStackGroup 2 :: int group"]
  by (simp add: group_eval)

text \<open>
  C9. At every moment of a group's life, \<open>getDepth()\<close> of a group constructed with
  count at least 1 is the depth that every member stack reports, and it is at least 1;
  for a group constructed with count 0 it is 0.
\<close>

theorem group_getDepth:
  "(1 \<le> count \<longrightarrow>
      1 \<le> getDepth (group_run ops (PlotPanZoomStackGroup count))
      \<and> (\<forall>s\<in>set (stacks (group_run ops (PlotPanZoomStackGroup count))).
            stack_getDepth s = getDepth (group_run ops (PlotPanZoomStackGroup count))))
   \<and> (count = 0 \<longrightarrow> getDepth (group_run ops (PlotPanZoomStackGroup count)) = 0)"
proof -
  let ?g = "group_run ops (PlotPanZoomStackGroup count)"
  have len: "length (stacks ?g) = nat count"
    by (simp add: length_stacks_group_run stacks_PlotPanZoomStackGroup)
  obtain d where d: "synced d ?g"
    using synced_reachable by blast
  have pos: "getDepth ?g = d" if "1 \<le> count"
  proof -
    from that len have "0 < length (stacks ?g)" by simp
    moreover from this have "stacks ?g ! 0 \<in> set (stacks ?g)" by simp
    ultimately show ?thesis using d by (simp add: getDepth_def synced_def)
  qed
  have zero: "getDepth ?g = 0" if "count = 0"
    using that len by (simp add: getDepth_def)
  from pos zero d show ?thesis
    by (auto simp: synced_def)
qed

theorem group_getDepth_witness:
  "getDepth (group_run
        [Push 1 [Defined 0, Defined 7] [Defined 0, Defined 2], Push 0 [Defined 5, Defined 10] [Defined 1, Defined 1]]
        (PlotPanZoomStackGroup 2 :: int group)) = 3
   \<and> stack_getDepth (stacks (group_run
        [Push 1 [Defined 0, Defined 7] [Defined 0, Defined 2], Push 0 [Defined 5, Defined 10] [Defined 1, Defined 1]]
        (PlotPanZoomStackGroup 2 :: int group)) ! 1) = 3
   \<and> getDepth (group_run
        [Push 1 [Defined 0, Defined 7] [Defined 0, Defined 2], Push 0 [Defined 5, Defined 10] [Defined 1, Defined 1]]
        (PlotPanZoomStackGroup 0 :: int group)) = 0"
  using group_getDepth [of 2
        "[Push 1 [Defined 0, Defined 7] [Defined 0, Defined 2], Push 0 [Defined 5, Defined 10] [Defined 1, Defined 1]]"]
    group_getDepth [of 0
        "[Push 1 [Defined 0, Defined 7] [Defined 0, Defined 2], Push 0 [Defined 5, Defined 10] [Defined 1, Defined 1 :: int js]]"]
  by (simp add: group_eval)

section \<open>The freshly constructed group\<close>

text \<open>
  C5, as the specification states it: every stack of a new group starts with the base
  state of origin \<open>[0, 0]\<close> and dimensions \<open>[0, 0]\<close>. The constructor passes two
  empty arrays instead, so the decorated stack of a new group of one stack reports the
  origin \<open>[]\<close> and the dimensions \<open>[]\<close>.
\<close>

theorem initial_state_counterexample:
  "wrapper_getOrigin (Decorated 0) (PlotPanZoomStackGroup 1 :: int group) \<noteq> [Defined 0, Defined 0]
   \<and> wrapper_getDimensions (Decorated 0) (PlotPanZoomStackGroup 1 :: int group) \<noteq> [Defined 0, Defined 0]
   \<and> wrapper_getOrigin (Decorated 0) (PlotPanZoomStackGroup 1 :: int group) = []
   \<and> wrapper_getDimensions (Decorated 0) (PlotPanZoomStackGroup 1 :: int group) = []"
  by (simp add: wrapper_getOrigin_def wrapper_getDimensions_def group_eval)

text \<open>
  C5, amended: a group constructed with count at least 1 has count stacks, each holding
  the single base state whose origin and dimensions are both the empty array; each
  decorated stack's \<open>getOrigin()\<close> and \<open>getDimensions()\<close> return \<open>[]\<close> and its
  \<open>getDepth()\<close> returns 1, as does the group's.
\<close>

theorem initial_state:
  "1 \<le> count \<longrightarrow>
     length (stacks (PlotPanZoomStackGroup count)) = nat count
     \<and> getDepth (PlotPanZoomStackGroup count) = 1
     \<and> (\<forall>j<nat count.
           getPanZoomStack (PlotPanZoomStackGroup count) (int j) = Inr (Defined (Decorated j))
           \<and> stacks (PlotPanZoomStackGroup count) ! j = [\<lparr>origin = [], dimensions = []\<rparr>]
           \<and> wrapper_getOrigin (Decorated j) (PlotPanZoomStackGroup count) = []
           \<and> wrapper_getDimensions (Decorated j) (PlotPanZoomStackGroup count) = []
           \<and> wrapper_getDepth (Decorated j) (PlotPanZoomStackGroup count) = 1)"
  by (auto simp: stacks_PlotPanZoomStackGroup decoratedStacks_PlotPanZoomStackGroup
      getPanZoomStack_def getDepth_def wrapper_getOrigin_def wrapper_getDimensions_def
      wrapper_getDepth_def PlotPanZoomStack_def stack_getDepth_def stack_getOrigin_def
      stack_getDimensions_def stack_getPanZoom_def)

theorem initial_state_witness:
  "(1::int) \<le> 3
   \<and> length (stacks (PlotPanZoomStackGroup 3 :: int group)) = 3
   \<and> getDepth (PlotPanZoomStackGroup 3 :: int group) = 1
   \<and> getPanZoomStack (PlotPanZoomStackGroup 3 :: int group) 2 = Inr (Defined (Decorated 2))
   \<and> stacks (PlotPanZoomStackGroup 3 :: int group) ! 2 = [\<lparr>origin = [], dimensions = []\<rparr>]
   \<and> wrapper_getOrigin (Decorated 2) (PlotPanZoomStackGroup 3 :: int group) = []
   \<and> wrapper_getDimensions (Decorated 2) (PlotPanZoomStackGroup 3 :: int group) = []
   \<and> wrapper_getDepth (Decorated 2) (PlotPanZoomStackGroup 3 :: int group) = 1"
  using initial_state [of 3, where ?'a = int]
  by (simp add: wrapper_getOrigin_def wrapper_getDimensions_def wrapper_getDepth_def
      getPanZoomStack_def decoratedStacks_PlotPanZoomStackGroup group_eval)

section \<open>Pushing through a decorated stack\<close>

text \<open>
  C1. In a group constructed with count at least 1, at any moment of its life,
  \<open>pushPanZoom(origin, dimensions)\<close> on the decorated stack that
  \<open>getPanZoomStack(i)\<close> returns, for an index \<open>i\<close> below count, puts exactly
  \<open>(origin, dimensions)\<close> on top of stack \<open>i\<close>, above its unchanged earlier
  entries. On every other stack \<open>j\<close> it puts, above the unchanged
  earlier entries, a new top of two-element arrays whose domain entries (index 0) are
  \<open>origin[0]\<close> and \<open>dimensions[0]\<close> and whose range entries (index 1) are the
  range entries of stack \<open>j\<close>'s own top state before the push.
\<close>

theorem pushPanZoom_rule:
  assumes "g = group_run ops (PlotPanZoomStackGroup count)"
    and "1 \<le> count" and "i < nat count"
    and "getPanZoomStack g (int i) = Inr (Defined w)"
    and "g' = wrapper_pushPanZoom w org dims g"
  shows "length (stacks g') = nat count
    \<and> stack_getPanZoom (stacks g' ! i) = \<lparr>origin = org, dimensions = dims\<rparr>
    \<and> stack_getOrigin (stacks g' ! i) = org
    \<and> stack_getDimensions (stacks g' ! i) = dims
    \<and> butlast (stacks g' ! i) = stacks g ! i
    \<and> (\<forall>j. j < nat count \<and> j \<noteq> i \<longrightarrow>
          butlast (stacks g' ! j) = stacks g ! j
          \<and> length (stack_getOrigin (stacks g' ! j)) = 2
          \<and> length (stack_getDimensions (stacks g' ! j)) = 2
          \<and> js_nth (stack_getOrigin (stacks g' ! j)) 0 = js_nth org 0
          \<and> js_nth (stack_getDimensions (stacks g' ! j)) 0 = js_nth dims 0
          \<and> js_nth (stack_getOrigin (stacks g' ! j)) 1 = js_nth (stack_getOrigin (stacks g ! j)) 1
          \<and> js_nth (stack_getDimensions (stacks g' ! j)) 1
              = js_nth (stack_getDimensions (stacks g ! j)) 1)"
proof -
  have len: "length (stacks g) = nat count"
    using assms(1) by (simp add: length_stacks_reachable)
  have "getPanZoomStack g (int i) = Inr (Defined (Decorated i))"
    using assms(1,3) by (simp add: getPanZoomStack_reachable)
  with assms(4) have w: "w = Decorated i"
    by simp
  have g': "g' = pushPanZoom org dims i g"
    using assms(5) w by (simp add: wrapper_pushPanZoom_def)
  have a: "length (stacks g') = nat count"
    using len g' by (simp add: length_stacks_pushPanZoom)
  have own: "stacks g' ! i = stack_pushPanZoom org dims (stacks g ! i)"
    using assms(3) len g' by (simp add: nth_stacks_pushPanZoom)
  have other: "stacks g' ! j = stack_pushPanZoom
             [js_nth org 0, js_nth (stack_getOrigin (stacks g ! j)) 1]
             [js_nth dims 0, js_nth (stack_getDimensions (stacks g ! j)) 1]
             (stacks g ! j)" if "j < nat count" "j \<noteq> i" for j
    using that len g' by (simp add: nth_stacks_pushPanZoom)
  show ?thesis
    using a by (simp add: own other top_push js_nth_pair)
qed

theorem pushPanZoom_rule_witness:
  "stack_getOrigin (stacks (group_run [Push 1 [Defined 0, Defined 7] [Defined 0, Defined 2]]
        (PlotPanZoomStackGroup 2 :: int group)) ! 1) = [Defined 0, Defined 7]
   \<and> stack_getDimensions (stacks (group_run [Push 1 [Defined 0, Defined 7] [Defined 0, Defined 2]]
        (PlotPanZoomStackGroup 2 :: int group)) ! 1) = [Defined 0, Defined 2]
   \<and> getPanZoomStack (group_run [Push 1 [Defined 0, Defined 7] [Defined 0, Defined 2]]
        (PlotPanZoomStackGroup 2 :: int group)) 0 = Inr (Defined (Decorated 0))
   \<and> stack_getPanZoom (stacks (wrapper_pushPanZoom (Decorated 0) [Defined 5, Defined 10] [Defined 1, Defined 1]
        (group_run [Push 1 [Defined 0, Defined 7] [Defined 0, Defined 2]]
          (PlotPanZoomStackGroup 2 :: int group))) ! 0)
       = \<lparr>origin = [Defined 5, Defined 10], dimensions = [Defined 1, Defined 1]\<rparr>
   \<and> stack_getOrigin (stacks (wrapper_pushPanZoom (Decorated 0) [Defined 5, Defined 10] [Defined 1, Defined 1]
        (group_run [Push 1 [Defined 0, Defined 7] [Defined 0, Defined 2]]
          (PlotPanZoomStackGroup 2 :: int group))) ! 1) = [Defined 5, Defined 7]
   \<and> stack_getDimensions (stacks (wrapper_pushPanZoom (Decorated 0) [Defined 5, Defined 10] [Defined 1, Defined 1]
        (group_run [Push 1 [Defined 0, Defined 7] [Defined 0, Defined 2]]
          (PlotPanZoomStackGroup 2 :: int group))) ! 1) = [Defined 1, Defined 2]
   \<and> getPanZoomStack (group_run [Push 1 [Defined 0, Defined 7] [Defined 0, Defined 2]]
        (PlotPanZoomStackGroup 2 :: int group)) 1 = Inr (Defined (Decorated 1))
   \<and> stack_getPanZoom (stacks (wrapper_pushPanZoom (Decorated 1) [Defined 5, Defined 10] [Defined 1, Defined 1]
        (group_run [Push 1 [Defined 0, Defined 7] [Defined 0, Defined 2]]
          (PlotPanZoomStackGroup 2 :: int group))) ! 1)
       = \<lparr>origin = [Defined 5, Defined 10], dimensions = [Defined 1, Defined 1]\<rparr>
   \<and> stack_getPanZoom (stacks (wrapper_pushPanZoom (Decorated 1) [Defined 5, Defined 10] [Defined 1, Defined 1]
        (group_run [Push 1 [Defined 0, Defined 7] [Defined 0, Defined 2]]
          (PlotPanZoomStackGroup 2 :: int group))) ! 0)
       = \<lparr>origin = [Defined 5, Undefined], dimensions = [Defined 1, Undefined]\<rparr>"
proof -
  let ?g = "group_run [Push 1 [Defined 0, Defined 7] [Defined 0, Defined 2]]
        (PlotPanZoomStackGroup 2 :: int group)"
  have c: "(1::int) \<le> 2" and i0: "(0::nat) < nat 2" and i1: "(1::nat) < nat 2"
    by simp_all
  have w0: "getPanZoomStack ?g (int 0) = Inr (Defined (Decorated 0))"
    by (simp add: getPanZoomStack_def decoratedStacks_group_run
        decoratedStacks_PlotPanZoomStackGroup)
  have w1: "getPanZoomStack ?g (int 1) = Inr (Defined (Decorated 1))"
    by (simp add: getPanZoomStack_def decoratedStacks_group_run
        decoratedStacks_PlotPanZoomStackGroup)
  from pushPanZoom_rule [where org = "[Defined 5, Defined 10]" and dims = "[Defined 1, Defined (1::int)]",
      OF refl c i0 w0 refl]
    pushPanZoom_rule [where org = "[Defined 5, Defined 10]" and dims = "[Defined 1, Defined (1::int)]",
      OF refl c i1 w1 refl]
    w0 w1
  show ?thesis
    by (simp add: group_eval)
qed

section \<open>Replacing the base state\<close>

text \<open>
  C6. At any moment of a group's life, \<open>setBasePanZoom(origin, dimensions)\<close> (the same
  function on every decorated stack and on the group) keeps the number of stacks and the
  depth of each; it makes the state at index 0 of every stack exactly
  \<open>(origin, dimensions)\<close>, the same whole arrays for every stack with no split into
  domain and range entries; and it leaves every entry above index 0 of every stack as it
  was.
\<close>

theorem setBasePanZoom_frame:
  assumes "g = group_run ops (PlotPanZoomStackGroup count)"
    and "g' = setBasePanZoom org dims g"
  shows "length (stacks g') = length (stacks g)
    \<and> (\<forall>j. j < length (stacks g) \<longrightarrow>
          stack_getDepth (stacks g' ! j) = stack_getDepth (stacks g ! j)
          \<and> stacks g' ! j ! 0 = \<lparr>origin = org, dimensions = dims\<rparr>
          \<and> (\<forall>k. 0 < k \<and> k < stack_getDepth (stacks g ! j) \<longrightarrow>
                stacks g' ! j ! k = stacks g ! j ! k))"
proof -
  have a: "length (stacks g') = length (stacks g)"
    using assms(2) by (simp add: setBasePanZoom_def)
  have b: "stacks g' ! j = stack_setBasePanZoom org dims (stacks g ! j)"
    if "j < length (stacks g)" for j
    using that assms(2) by (simp add: setBasePanZoom_def)
  have c: "1 \<le> stack_getDepth (stacks g ! j)" if "j < length (stacks g)" for j
    using that assms(1) by (rule floor_reachable [rotated])
  have d: "stack_getDepth (stacks g' ! j) = stack_getDepth (stacks g ! j)
      \<and> stacks g' ! j ! 0 = \<lparr>origin = org, dimensions = dims\<rparr>
      \<and> (\<forall>k. 0 < k \<and> k < stack_getDepth (stacks g ! j) \<longrightarrow>
            stacks g' ! j ! k = stacks g ! j ! k)" if "j < length (stacks g)" for j
    using setBase_entries [OF c [OF that]] by (simp add: b [OF that] depth_setBase)
  from a d show ?thesis by blast
qed

theorem setBasePanZoom_frame_witness:
  "length (stacks (setBasePanZoom [Defined 8, Defined 9] [Defined 3, Defined 4]
      (group_run [Push 0 [Defined 5, Defined 10] [Defined 1, Defined 1]]
        (PlotPanZoomStackGroup 2 :: int group)))) = 2
   \<and> stacks (setBasePanZoom [Defined 8, Defined 9] [Defined 3, Defined 4]
      (group_run [Push 0 [Defined 5, Defined 10] [Defined 1, Defined 1]]
        (PlotPanZoomStackGroup 2 :: int group))) ! 1
     = [\<lparr>origin = [Defined 8, Defined 9], dimensions = [Defined 3, Defined 4]\<rparr>,
        \<lparr>origin = [Defined 5, Undefined], dimensions = [Defined 1, Undefined]\<rparr>]
   \<and> stacks (setBasePanZoom [Defined 8, Defined 9] [Defined 3, Defined 4]
      (group_run [Push 0 [Defined 5, Defined 10] [Defined 1, Defined 1]]
        (PlotPanZoomStackGroup 2 :: int group))) ! 0
     = [\<lparr>origin = [Defined 8, Defined 9], dimensions = [Defined 3, Defined 4]\<rparr>,
        \<lparr>origin = [Defined 5, Defined 10], dimensions = [Defined 1, Defined 1]\<rparr>]"
  using setBasePanZoom_frame [where ops = "[Push 0 [Defined 5, Defined 10] [Defined 1, Defined 1]]"
      and count = 2 and org = "[Defined 8, Defined 9]" and dims = "[Defined 3, Defined (4::int)]",
      OF refl refl]
  by (simp add: group_eval)

section \<open>Push, then pop\<close>

text \<open>
  C7. At any moment of a group's life (all stacks then have one common depth), a push
  through any decorated stack raises the depth of every stack by one, and a following
  group-wide \<open>popPanZoom\<close> gives back the group as it was before the push: every stack
  has its former depth and its former top origin and dimensions. The witness is the
  specification's example: a group of 3, two pushes through the decorated stack 0, then
  one pop.
\<close>

theorem push_then_pop:
  assumes "g = group_run ops (PlotPanZoomStackGroup count)"
  shows "popPanZoom (wrapper_pushPanZoom w org dims g) = g
    \<and> (\<forall>j. j < length (stacks g) \<longrightarrow>
          stack_getDepth (stacks (wrapper_pushPanZoom w org dims g) ! j)
            = stack_getDepth (stacks g ! j) + 1
          \<and> stack_getDepth (stacks (popPanZoom (wrapper_pushPanZoom w org dims g)) ! j)
            = stack_getDepth (stacks g ! j)
          \<and> stack_getOrigin (stacks (popPanZoom (wrapper_pushPanZoom w org dims g)) ! j)
            = stack_getOrigin (stacks g ! j)
          \<and> stack_getDimensions (stacks (popPanZoom (wrapper_pushPanZoom w org dims g)) ! j)
            = stack_getDimensions (stacks g ! j))"
proof -
  let ?p = "wrapper_pushPanZoom w org dims g"
  have len: "length (stacks ?p) = length (stacks g)"
    by (simp add: wrapper_pushPanZoom_def length_stacks_pushPanZoom)
  have nth: "stack_popPanZoom (stacks ?p ! j) = stacks g ! j" if "j < length (stacks g)" for j
  proof -
    from that assms have "1 \<le> stack_getDepth (stacks g ! j)"
      by (rule floor_reachable [rotated])
    with that show ?thesis
      by (auto simp: wrapper_pushPanZoom_def nth_stacks_pushPanZoom pop_push)
  qed
  have "map stack_popPanZoom (stacks ?p) = stacks g"
    by (rule nth_equalityI) (simp_all add: len nth)
  then have restored: "popPanZoom ?p = g"
    by (simp add: popPanZoom_def wrapper_pushPanZoom_def pushPanZoom_def)
  have up: "stack_getDepth (stacks ?p ! j) = stack_getDepth (stacks g ! j) + 1"
    if "j < length (stacks g)" for j
    using that by (simp add: wrapper_pushPanZoom_def nth_stacks_pushPanZoom depth_push)
  show ?thesis
    by (simp add: restored up)
qed

theorem push_then_pop_witness:
  "stack_getDepth (stacks (group_run
        [Push 0 [Defined 5, Defined 10] [Defined 1, Defined 1],
         Push 0 [Defined 6, Defined 11] [Defined 2, Defined 3]]
        (PlotPanZoomStackGroup 3 :: int group)) ! 2) = 3
   \<and> stack_getDepth (stacks (popPanZoom (group_run
        [Push 0 [Defined 5, Defined 10] [Defined 1, Defined 1],
         Push 0 [Defined 6, Defined 11] [Defined 2, Defined 3]]
        (PlotPanZoomStackGroup 3 :: int group))) ! 2) = 2
   \<and> stack_getOrigin (stacks (popPanZoom (group_run
        [Push 0 [Defined 5, Defined 10] [Defined 1, Defined 1],
         Push 0 [Defined 6, Defined 11] [Defined 2, Defined 3]]
        (PlotPanZoomStackGroup 3 :: int group))) ! 2) = [Defined 5, Undefined]
   \<and> stack_getOrigin (stacks (popPanZoom (group_run
        [Push 0 [Defined 5, Defined 10] [Defined 1, Defined 1],
         Push 0 [Defined 6, Defined 11] [Defined 2, Defined 3]]
        (PlotPanZoomStackGroup 3 :: int group))) ! 0) = [Defined 5, Defined 10]
   \<and> popPanZoom (group_run
        [Push 0 [Defined 5, Defined 10] [Defined 1, Defined 1],
         Push 0 [Defined 6, Defined 11] [Defined 2, Defined 3]]
        (PlotPanZoomStackGroup 3 :: int group))
     = group_run [Push 0 [Defined 5, Defined 10] [Defined 1, Defined 1]] (PlotPanZoomStackGroup 3)"
  using push_then_pop [where ops = "[Push 0 [Defined 5, Defined 10] [Defined 1, Defined 1]]"
      and count = 3 and w = "Decorated 0" and org = "[Defined 6, Defined 11]"
      and dims = "[Defined 2, Defined (3::int)]", OF refl]
  by (simp add: group_eval)

section \<open>Clearing\<close>

text \<open>
  C8. \<open>clearPanZoom\<close> is idempotent on every group state: clearing twice gives the
  state that clearing once gives. At any moment of a group's life it keeps the number of
  stacks and truncates every stack to exactly its base state (depth 1, the entry at
  index 0 unchanged); for every stack that is the result the loop "pop until depth == 1"
  returns, and for a group of at least one stack it is the result the group-wide loop
  "\<open>popPanZoom\<close> until \<open>getDepth() == 1\<close>" returns (both loops end).
\<close>

theorem clearPanZoom_idempotent:
  assumes "g = group_run ops (PlotPanZoomStackGroup count)"
  shows "clearPanZoom (clearPanZoom h) = clearPanZoom h
    \<and> clearPanZoom (clearPanZoom g) = clearPanZoom g
    \<and> length (stacks (clearPanZoom g)) = length (stacks g)
    \<and> (\<forall>j. j < length (stacks g) \<longrightarrow>
          stacks (clearPanZoom g) ! j = [stacks g ! j ! 0]
          \<and> stack_getDepth (stacks (clearPanZoom g) ! j) = 1
          \<and> pop_until_base (stacks g ! j) = Some (stacks (clearPanZoom g) ! j))
    \<and> (1 \<le> count \<longrightarrow> group_pop_until_base g = Some (clearPanZoom g))"
proof -
  have idem_h: "clearPanZoom (clearPanZoom h) = clearPanZoom h"
    by (simp add: clearPanZoom_def clear_clear)
  have idem_g: "clearPanZoom (clearPanZoom g) = clearPanZoom g"
    by (simp add: clearPanZoom_def clear_clear)
  have len: "length (stacks (clearPanZoom g)) = length (stacks g)"
    by (simp add: clearPanZoom_def)
  have each: "stacks (clearPanZoom g) ! j = [stacks g ! j ! 0]
      \<and> stack_getDepth (stacks (clearPanZoom g) ! j) = 1
      \<and> pop_until_base (stacks g ! j) = Some (stacks (clearPanZoom g) ! j)"
    if "j < length (stacks g)" for j
  proof -
    from assms that have f: "1 \<le> stack_getDepth (stacks g ! j)"
      by (rule floor_reachable)
    from that have c: "stacks (clearPanZoom g) ! j = stack_clearPanZoom (stacks g ! j)"
      by (simp add: clearPanZoom_def)
    show ?thesis
      using f by (simp add: c clear_base_only [OF f] pop_until_base_clear [OF f] stack_getDepth_def)
  qed
  have grp: "group_pop_until_base g = Some (clearPanZoom g)" if "1 \<le> count"
  proof -
    obtain d where d: "synced d g"
      using synced_reachable assms by blast
    from that assms have "stacks g \<noteq> []"
      using length_stacks_reachable [of ops count] by auto
    with d show ?thesis
      by (rule group_pop_until_base_clear)
  qed
  from idem_h idem_g len each grp show ?thesis by blast
qed

theorem clearPanZoom_idempotent_witness:
  "clearPanZoom (clearPanZoom (group_run
        [Push 0 [Defined 5, Defined 10] [Defined 1, Defined 1],
         Push 1 [Defined 6, Defined 11] [Defined 2, Defined 3]]
        (PlotPanZoomStackGroup 2 :: int group)))
     = clearPanZoom (group_run
        [Push 0 [Defined 5, Defined 10] [Defined 1, Defined 1],
         Push 1 [Defined 6, Defined 11] [Defined 2, Defined 3]]
        (PlotPanZoomStackGroup 2 :: int group))
   \<and> stacks (clearPanZoom (group_run
        [Push 0 [Defined 5, Defined 10] [Defined 1, Defined 1],
         Push 1 [Defined 6, Defined 11] [Defined 2, Defined 3]]
        (PlotPanZoomStackGroup 2 :: int group))) ! 1 = [\<lparr>origin = [], dimensions = []\<rparr>]
   \<and> pop_until_base (stacks (group_run
        [Push 0 [Defined 5, Defined 10] [Defined 1, Defined 1],
         Push 1 [Defined 6, Defined 11] [Defined 2, Defined 3]]
        (PlotPanZoomStackGroup 2 :: int group)) ! 1) = Some [\<lparr>origin = [], dimensions = []\<rparr>]
   \<and> group_pop_until_base (group_run
        [Push 0 [Defined 5, Defined 10] [Defined 1, Defined 1],
         Push 1 [Defined 6, Defined 11] [Defined 2, Defined 3]]
        (PlotPanZoomStackGroup 2 :: int group)) = Some (PlotPanZoomStackGroup 2)"
proof -
  let ?g = "group_run
        [Push 0 [Defined 5, Defined 10] [Defined 1, Defined 1],
         Push 1 [Defined 6, Defined 11] [Defined 2, Defined 3]]
        (PlotPanZoomStackGroup 2 :: int group)"
  have e: "(PlotPanZoomStackGroup 2 :: int group)
      = \<lparr>stacks = [[\<lparr>origin = [], dimensions = []\<rparr>], [\<lparr>origin = [], dimensions = []\<rparr>]],
         decoratedStacks = [Decorated 0, Decorated 1]\<rparr>"
    by (simp add: PlotPanZoomStackGroup_def Let_def create_stacks_eq decorate_all
        PlotPanZoomStack_def eval_nat_numeral)
  have v: "?g = \<lparr>stacks =
        [[\<lparr>origin = [], dimensions = []\<rparr>,
          \<lparr>origin = [Defined 5, Defined 10], dimensions = [Defined 1, Defined 1]\<rparr>,
          \<lparr>origin = [Defined 6, Defined 10], dimensions = [Defined 2, Defined 1]\<rparr>],
         [\<lparr>origin = [], dimensions = []\<rparr>,
          \<lparr>origin = [Defined 5, Undefined], dimensions = [Defined 1, Undefined]\<rparr>,
          \<lparr>origin = [Defined 6, Defined 11], dimensions = [Defined 2, Defined 3]\<rparr>]],
        decoratedStacks = [Decorated 0, Decorated 1]\<rparr>"
    by (simp add: e group_run_def wrapper_pushPanZoom_def pushPanZoom_def
        stack_pushPanZoom_def stack_getOrigin_def stack_getDimensions_def
        stack_getPanZoom_def js_nth_def)
  have c: "clearPanZoom ?g = PlotPanZoomStackGroup 2"
    by (simp only: v) (simp add: e clearPanZoom_def stack_clearPanZoom_def)
  have j: "1 < length (stacks ?g)"
    by (simp add: length_stacks_reachable)
  note t = clearPanZoom_idempotent [where ops = "[Push 0 [Defined 5, Defined 10] [Defined 1, Defined 1],
         Push 1 [Defined 6, Defined 11] [Defined 2, Defined (3::int)]]" and count = 2
         and h = "PlotPanZoomStackGroup 0 :: int group", OF refl]
  from t j have p: "pop_until_base (stacks ?g ! 1) = Some (stacks (clearPanZoom ?g) ! 1)"
    by blast
  from t have q: "group_pop_until_base ?g = Some (clearPanZoom ?g)"
    by simp
  have i: "clearPanZoom (clearPanZoom ?g) = clearPanZoom ?g"
    using t by blast
  have s: "stacks (PlotPanZoomStackGroup 2 :: int group) ! 1 = [\<lparr>origin = [], dimensions = []\<rparr>]"
    by (simp add: e)
  from i p q show ?thesis
    by (simp only: c s simp_thms)
qed

end
